theory Spec2Isabelle
  imports Main "HOL-Library.Sublist" "HOL-Library.AList"
begin

section \<open>Data model (types.ts)\<close>

text \<open>
  Strings are lists of characters. Line and column numbers are JavaScript numbers that
  hold source positions; they are modelled as integers. An optional field
  (\<^verbatim>\<open>network?: string\<close>) is an \<open>option\<close>. The field \<^verbatim>\<open>text\<close> of an
  extracted link is called \<open>linkText\<close>, \<^verbatim>\<open>file\<close> is \<open>filePath\<close>, and the fields
  \<^verbatim>\<open>url\<close> and \<^verbatim>\<open>network\<close> of a persisted record are \<open>a_url\<close> and \<open>a_network\<close>;
  the field \<^verbatim>\<open>originalUrl\<close>, which no function reads, is left out.
\<close>

record ExtractedLink =
  url :: string
  linkText :: string
  filePath :: string
  line :: int
  column :: int
  isAffiliate :: bool
  network :: "string option"

record AffiliateLink =
  slug :: string
  name :: string
  a_url :: string
  is_affiliate :: bool
  a_network :: "string option"
  created_at :: "string option"

section \<open>JavaScript Map, in insertion order\<close>

text \<open>
  A \<^verbatim>\<open>Map\<close> iterates in insertion order; \<^verbatim>\<open>set\<close> on a key that is present
  replaces the value in place, on a new key it appends. This is \<open>AList.update\<close> on an
  association list. \<^verbatim>\<open>new Map(pairs)\<close> sets the pairs one after the other.
\<close>

definition map_has :: "('k \<times> 'v) list \<Rightarrow> 'k \<Rightarrow> bool" where
  "map_has m k = (map_of m k \<noteq> None)"

definition map_set :: "'k \<Rightarrow> 'v \<Rightarrow> ('k \<times> 'v) list \<Rightarrow> ('k \<times> 'v) list" where
  "map_set k v m = AList.update k v m"

definition map_values :: "('k \<times> 'v) list \<Rightarrow> 'v list" where
  "map_values m = map snd m"

definition new_Map :: "('k \<times> 'v) list \<Rightarrow> ('k \<times> 'v) list" where
  "new_Map pairs = foldl (\<lambda>m kv. map_set (fst kv) (snd kv) m) [] pairs"

section \<open>The flat-file store (adapters/filesystem.ts)\<close>

text \<open>
  The state of the store is the content of the JSON file: \<open>None\<close> when the file does
  not exist, otherwise the array of records it holds. \<open>upsertLinks\<close> returns the file
  it writes.
\<close>

type_synonym store = "AffiliateLink list option"

definition getLinks :: "store \<Rightarrow> AffiliateLink list" where
  "getLinks st = (case st of None \<Rightarrow> [] | Some ls \<Rightarrow> ls)"

definition mergeLinks :: "(string \<times> AffiliateLink) list \<Rightarrow> AffiliateLink list \<Rightarrow> (string \<times> AffiliateLink) list" where
  "mergeLinks existingMap links = foldl (\<lambda>m l. map_set (slug l) l m) existingMap links"

definition upsertLinks :: "store \<Rightarrow> AffiliateLink list \<Rightarrow> store" where
  "upsertLinks st links =
     (let existing = getLinks st;
          existingMap = new_Map (map (\<lambda>l. (slug l, l)) existing);
          merged = map_values (mergeLinks existingMap links)
      in Some merged)"

definition getLinkBySlug :: "store \<Rightarrow> string \<Rightarrow> AffiliateLink option" where
  "getLinkBySlug st s = find (\<lambda>l. slug l = s) (getLinks st)"

section \<open>JavaScript strings\<close>

text \<open>
  \<open>startsWith\<close>, \<open>str_includes\<close> (\<^verbatim>\<open>includes\<close>), the truth value of a string,
  \<^verbatim>\<open>replace\<close> of the first occurrence of a literal by the empty string
  (\<open>removeFirst\<close>), \<^verbatim>\<open>split\<close> on one character, the removal of trailing dashes
  (the regular expression of one or more dashes at the end of the string) and
  \<^verbatim>\<open>Number.prototype.toString(radix)\<close> for a natural number.
\<close>

definition startsWith :: "string \<Rightarrow> string \<Rightarrow> bool" where
  "startsWith s p = prefix p s"

fun str_includes :: "string \<Rightarrow> string \<Rightarrow> bool" where
  "str_includes [] p = (p = [])"
| "str_includes (c # cs) p = (prefix p (c # cs) \<or> str_includes cs p)"

definition truthy :: "string \<Rightarrow> bool" where
  "truthy s = (s \<noteq> [])"

fun removeFirst :: "string \<Rightarrow> string \<Rightarrow> string" where
  "removeFirst pat [] = []"
| "removeFirst pat (c # cs) =
     (if prefix pat (c # cs) then drop (length pat) (c # cs) else c # removeFirst pat cs)"

fun splitOn :: "char \<Rightarrow> string \<Rightarrow> string list" where
  "splitOn sep [] = [[]]"
| "splitOn sep (c # cs) =
     (if c = sep then [] # splitOn sep cs
      else (case splitOn sep cs of [] \<Rightarrow> [[c]] | w # ws \<Rightarrow> (c # w) # ws))"

definition stripTrailingDashes :: "string \<Rightarrow> string" where
  "stripTrailingDashes s = rev (dropWhile (\<lambda>c. c = CHR ''-'') (rev s))"

definition digitChar :: "nat \<Rightarrow> char" where
  "digitChar d = ''0123456789abcdefghijklmnopqrstuvwxyz'' ! d"

function toStringRadix :: "nat \<Rightarrow> nat \<Rightarrow> string" where
  "toStringRadix r n =
     (if n < r \<or> r < 2 then [digitChar n]
      else toStringRadix r (n div r) @ [digitChar (n mod r)])"
  by pat_completeness auto
termination
  by (relation "measure (\<lambda>(r, n). n)") auto

definition numberToString :: "nat \<Rightarrow> string" where
  "numberToString n = toStringRadix 10 n"

declare toStringRadix.simps [simp del]

section \<open>The platform: URL parser and slugify\<close>

text \<open>
  The WHATWG \<^verbatim>\<open>URL\<close> class and the \<^verbatim>\<open>slugify\<close> package are not code of this
  repository. They are parameters of the model: \<open>parseURL\<close> is \<^verbatim>\<open>new URL(s)\<close>
  (\<open>None\<close> when it throws), \<open>serializeURL\<close> is \<^verbatim>\<open>toString()\<close>, and \<open>slugify\<close> is
  the call with the options \<^verbatim>\<open>lower\<close>, \<^verbatim>\<open>strict\<close> and \<^verbatim>\<open>trim\<close> (the package
  trims by default, so both call sites make the same call). Every theorem below
  holds for every platform.

  \<open>hostLabel\<close> is the expression \<^verbatim>\<open>hostname.replace('www.', '').split('.')[0]\<close>: the
  host with its first \<^verbatim>\<open>www.\<close> removed, up to the first dot. \<open>firstPathSegment\<close> is
  the first non-empty segment of the path, or the empty string.
\<close>

record URL =
  protocol :: string
  username :: string
  password :: string
  hostname :: string
  port :: string
  pathname :: string
  searchParams :: "(string \<times> string) list"
  hash :: string

record platform =
  slugify :: "string \<Rightarrow> string"
  parseURL :: "string \<Rightarrow> URL option"
  serializeURL :: "URL \<Rightarrow> string"

definition hostLabel :: "string \<Rightarrow> string" where
  "hostLabel host = takeWhile (\<lambda>c. c \<noteq> CHR ''.'') (removeFirst ''www.'' host)"

definition firstPathSegment :: "string \<Rightarrow> string" where
  "firstPathSegment p = (case filter truthy (splitOn (CHR ''/'') p) of [] \<Rightarrow> [] | w # ws \<Rightarrow> w)"

section \<open>Configuration and plugins (types.ts)\<close>

text \<open>
  Of the configuration the model keeps what the modelled functions read: the site URL,
  \<^verbatim>\<open>tracking.baseUrl\<close> and the table of networks. A plugin is the record of its
  methods. \<^verbatim>\<open>generateSlug\<close> may read the clock (\<^verbatim>\<open>Date.now()\<close>), so it takes the
  reading as its first argument. The classes keep their plugins in a
  \<^verbatim>\<open>Map\<close> from name to plugin (\<open>pluginMap\<close>); \<open>pluginFor\<close> is the lookup guarded
  by \<^verbatim>\<open>if (link.network)\<close>.
\<close>

record NetworkOptions =
  o_tag :: "string option"
  o_cleanParams :: "bool option"

record NetworkConfig =
  enabled :: bool
  tag :: "string option"
  cleanParams :: "bool option"

record LinksmithConfig =
  siteUrl :: string
  trackingBaseUrl :: string
  networks :: "string \<Rightarrow> NetworkConfig option"

record NetworkPlugin =
  p_name :: string
  p_detect :: "string \<Rightarrow> bool"
  p_convert :: "string \<Rightarrow> NetworkOptions \<Rightarrow> string"
  p_extractProductId :: "string \<Rightarrow> string option"
  p_generateSlug :: "nat \<Rightarrow> string \<Rightarrow> string \<Rightarrow> string"

definition pluginMap :: "NetworkPlugin list \<Rightarrow> (string \<times> NetworkPlugin) list" where
  "pluginMap plugins = new_Map (map (\<lambda>p. (p_name p, p)) plugins)"

definition pluginFor :: "(string \<times> NetworkPlugin) list \<Rightarrow> ExtractedLink \<Rightarrow> NetworkPlugin option" where
  "pluginFor pm link =
     (case network link of None \<Rightarrow> None
      | Some n \<Rightarrow> if truthy n then map_of pm n else None)"

section \<open>Slug generation (Transformer.generateSlug, Reporter.generateSlug)\<close>

text \<open>
  The two private methods have the same text. \<open>now\<close> is the value \<^verbatim>\<open>Date.now()\<close>
  returns if the method reaches it.
\<close>

definition generateSlug :: "platform \<Rightarrow> (string \<times> NetworkPlugin) list \<Rightarrow> nat \<Rightarrow> ExtractedLink \<Rightarrow> string" where
  "generateSlug pf pm now link =
     (case pluginFor pm link of
        Some plugin \<Rightarrow> p_generateSlug plugin now (url link) (linkText link)
      | None \<Rightarrow>
          if truthy (linkText link) \<and> linkText link \<noteq> url link
          then stripTrailingDashes (take 50 (slugify pf (linkText link)))
          else (case parseURL pf (url link) of
                  Some u \<Rightarrow>
                    (let domain = hostLabel (hostname u);
                         pathPart = firstPathSegment (pathname u)
                     in take 50 (slugify pf (domain @ ''-'' @ pathPart)))
                | None \<Rightarrow> ''link-'' @ toStringRadix 36 now))"

section \<open>Collision resolution (the while loop of generateLinkMap and toAffiliateLinks)\<close>

text \<open>
  \<open>numbered b n\<close> is the candidate \<^verbatim>\<open>`${baseSlug}-${++counter}`\<close> and
  \<open>domainCandidate\<close> the candidate of the \<^verbatim>\<open>try\<close> block, \<open>None\<close> when the URL does
  not parse. The set \<^verbatim>\<open>usedSlugs\<close> is a list without a fixed order. The loop is a
  recursive function; it terminates because the reserved slugs are finitely many and
  the numbered candidates are pairwise different, which the lemmas before the function
  establish.
\<close>

definition numbered :: "string \<Rightarrow> nat \<Rightarrow> string" where
  "numbered baseSlug n = baseSlug @ ''-'' @ numberToString n"

definition domainCandidate :: "platform \<Rightarrow> string \<Rightarrow> string \<Rightarrow> string option" where
  "domainCandidate pf u baseSlug =
     (case parseURL pf u of
        Some parsed \<Rightarrow> Some (baseSlug @ ''-'' @ hostLabel (hostname parsed))
      | None \<Rightarrow> None)"

definition digitValue :: "char \<Rightarrow> nat" where
  "digitValue c = of_char c - 48"

definition readDecimal :: "string \<Rightarrow> nat" where
  "readDecimal s = foldl (\<lambda>a c. 10 * a + digitValue c) 0 s"

lemma digitValue_digitChar_table:
  "list_all (\<lambda>d. digitValue (digitChar d) = d) [0..<10]"
  by code_simp

lemma digitValue_digitChar: "d < 10 \<Longrightarrow> digitValue (digitChar d) = d"
proof -
  assume "d < 10"
  then have "d \<in> set [0..<10]" by simp
  with digitValue_digitChar_table show ?thesis unfolding list_all_iff by blast
qed

lemma readDecimal_numberToString: "readDecimal (numberToString n) = n"
  unfolding numberToString_def
proof (induction "10::nat" n rule: toStringRadix.induct)
  case (1 n)
  show ?case
  proof (cases "n < 10")
    case True
    then show ?thesis
      by (subst toStringRadix.simps) (simp add: readDecimal_def digitValue_digitChar)
  next
    case False
    then have "readDecimal (toStringRadix 10 (n div 10)) = n div 10"
      using "1" by simp
    then show ?thesis
      using False
      by (subst toStringRadix.simps) (simp add: readDecimal_def digitValue_digitChar)
  qed
qed

lemma inj_numberToString: "inj numberToString"
  by (rule inj_on_inverseI [where g = readDecimal]) (rule readDecimal_numberToString)

lemma inj_numbered: "inj (numbered b)"
  using inj_numberToString by (auto simp: numbered_def inj_def)

lemma finite_numbered_used: "finite {k. numbered b k \<in> set used}"
proof -
  have "{k. numbered b k \<in> set used} = numbered b -` set used" by auto
  then show ?thesis
    by (simp add: finite_vimageI inj_numbered)
qed

definition pending :: "string list \<Rightarrow> string \<Rightarrow> nat \<Rightarrow> nat" where
  "pending used b c = card {k. c < k \<and> numbered b k \<in> set used}"

lemma pending_step:
  "pending used b c = pending used b (Suc c) + (if numbered b (Suc c) \<in> set used then 1 else 0)"
proof -
  let ?A = "{k. c < k \<and> numbered b k \<in> set used}"
  let ?B = "{k. Suc c < k \<and> numbered b k \<in> set used}"
  have fin: "finite ?B"
    by (rule finite_subset [OF _ finite_numbered_used [of b used]]) auto
  show ?thesis
  proof (cases "numbered b (Suc c) \<in> set used")
    case True
    then have "?A = insert (Suc c) ?B" by (auto simp: Suc_lessI)
    moreover have "Suc c \<notin> ?B" by simp
    ultimately show ?thesis using fin True by (simp add: pending_def)
  next
    case False
    then have "?A = ?B" by (auto simp: Suc_lessI) (metis Suc_lessI)
    then show ?thesis using False by (simp add: pending_def)
  qed
qed

lemma pending_decreases:
  "pending used b (Suc c) + (if numbered b (Suc c) \<in> set used then 1 else 0) < Suc (pending used b c)"
  using pending_step [of used b c] by simp

function collisionLoop :: "platform \<Rightarrow> string list \<Rightarrow> string \<Rightarrow> string \<Rightarrow> string \<Rightarrow> nat \<Rightarrow> string" where
  "collisionLoop pf usedSlugs u baseSlug s counter =
     (if s \<in> set usedSlugs then
        (case domainCandidate pf u baseSlug of
           Some domainSlug \<Rightarrow>
             if domainSlug \<notin> set usedSlugs then domainSlug
             else collisionLoop pf usedSlugs u baseSlug (numbered baseSlug (counter + 1)) (counter + 1)
         | None \<Rightarrow>
             collisionLoop pf usedSlugs u baseSlug (numbered baseSlug (counter + 1)) (counter + 1))
      else s)"
  by pat_completeness auto
termination
  by (relation "measure (\<lambda>(pf, used, u, b, s, c). pending used b c + (if s \<in> set used then 1 else 0))")
     (simp_all add: pending_decreases)

declare collisionLoop.simps [simp del]

section \<open>Amazon plugin\<close>

text \<open>
  The three regular expressions of \<^verbatim>\<open>AMAZON_PATTERNS\<close> are matchers at a position,
  each returning its capture group: \<open>productPattern\<close> (\<^verbatim>\<open>/dp/\<close> or
  \<^verbatim>\<open>/gp/product/\<close>, then ten letters or digits, case-insensitive), \<open>shortPattern\<close>
  (\<^verbatim>\<open>amzn.to/\<close>, then one or more letters or digits) and \<open>refPattern\<close> (as the first,
  followed by \<^verbatim>\<open>/ref=\<close>). \<open>regexSearch\<close> finds the leftmost match.
\<close>

definition toLowerChar :: "char \<Rightarrow> char" where
  "toLowerChar c =
     (case map_of (zip ''ABCDEFGHIJKLMNOPQRSTUVWXYZ'' ''abcdefghijklmnopqrstuvwxyz'') c of
        Some l \<Rightarrow> l | None \<Rightarrow> c)"

definition toLowerCase :: "string \<Rightarrow> string" where
  "toLowerCase s = map toLowerChar s"

definition isAlnum :: "char \<Rightarrow> bool" where
  "isAlnum c = (c \<in> set ''ABCDEFGHIJKLMNOPQRSTUVWXYZabcdefghijklmnopqrstuvwxyz0123456789'')"

definition AMAZON_DOMAINS :: "string list" where
  "AMAZON_DOMAINS =
     [''amazon.com'', ''amazon.co.uk'', ''amazon.de'', ''amazon.fr'', ''amazon.it'', ''amazon.es'',
      ''amazon.ca'', ''amazon.com.au'', ''amazon.co.jp'', ''amazon.in'', ''amzn.to'', ''amzn.com'']"

definition prefixCI :: "string \<Rightarrow> string \<Rightarrow> bool" where
  "prefixCI lit s = (toLowerCase (take (length lit) s) = toLowerCase lit)"

definition asinAfter :: "string \<Rightarrow> string \<Rightarrow> string option" where
  "asinAfter lit s =
     (let rest = drop (length lit) s
      in if prefixCI lit s \<and> 10 \<le> length rest \<and> list_all isAlnum (take 10 rest)
         then Some (take 10 rest) else None)"

definition asinRefAfter :: "string \<Rightarrow> string \<Rightarrow> string option" where
  "asinRefAfter lit s =
     (case asinAfter lit s of
        Some g \<Rightarrow> if prefixCI ''/ref='' (drop (length lit + 10) s) then Some g else None
      | None \<Rightarrow> None)"

definition productPattern :: "string \<Rightarrow> string option" where
  "productPattern s =
     (case asinAfter ''/dp/'' s of Some g \<Rightarrow> Some g | None \<Rightarrow> asinAfter ''/gp/product/'' s)"

definition shortPattern :: "string \<Rightarrow> string option" where
  "shortPattern s =
     (let g = takeWhile isAlnum (drop 8 s)
      in if prefix ''amzn.to/'' s \<and> g \<noteq> [] then Some g else None)"

definition refPattern :: "string \<Rightarrow> string option" where
  "refPattern s =
     (case asinRefAfter ''/gp/product/'' s of Some g \<Rightarrow> Some g | None \<Rightarrow> asinRefAfter ''/dp/'' s)"

fun regexSearch :: "(string \<Rightarrow> string option) \<Rightarrow> string \<Rightarrow> string option" where
  "regexSearch at [] = at []"
| "regexSearch at (c # cs) =
     (case at (c # cs) of Some g \<Rightarrow> Some g | None \<Rightarrow> regexSearch at cs)"

definition AMAZON_PATTERNS :: "(string \<Rightarrow> string option) list" where
  "AMAZON_PATTERNS = [productPattern, shortPattern, refPattern]"

fun extractLoop :: "(string \<Rightarrow> string option) list \<Rightarrow> string \<Rightarrow> string option" where
  "extractLoop [] u = None"
| "extractLoop (pattern # patterns) u =
     (case regexSearch pattern u of
        Some g \<Rightarrow>
          if truthy g then (if str_includes u ''amzn.to'' then None else Some g)
          else extractLoop patterns u
      | None \<Rightarrow> extractLoop patterns u)"

definition extractProductId :: "string \<Rightarrow> string option" where
  "extractProductId u = extractLoop AMAZON_PATTERNS u"

definition isDomainOf :: "string \<Rightarrow> string \<Rightarrow> bool" where
  "isDomainOf host d = (host = d \<or> suffix (''.'' @ d) host)"

definition extractDomain :: "platform \<Rightarrow> string \<Rightarrow> string" where
  "extractDomain pf u =
     (case parseURL pf u of
        Some parsed \<Rightarrow>
          (let host = removeFirst ''www.'' (toLowerCase (hostname parsed))
           in case find (isDomainOf host) AMAZON_DOMAINS of
                Some d \<Rightarrow> d | None \<Rightarrow> ''amazon.com'')
      | None \<Rightarrow> ''amazon.com'')"

subsection \<open>Replacement strings and String.prototype.replace\<close>

text \<open>
  \<^verbatim>\<open>replace\<close> expands the patterns of its replacement string: two dollar signs are
  one, a dollar sign with an ampersand is the match, with a backquote the text before
  the match, with an apostrophe the text after it; with no capture group every other
  dollar sign stands for itself. \<open>replaceAllFrom\<close> is \<^verbatim>\<open>replace\<close> with a global
  regular expression that matches one literal text, \<open>replaceFirstFrom\<close> is
  \<^verbatim>\<open>replace\<close> with a regular expression without the global flag, given as a matcher
  that returns the length of the match at a position.
\<close>

fun expandReplacement :: "string \<Rightarrow> string \<Rightarrow> string \<Rightarrow> string \<Rightarrow> string" where
  "expandReplacement [] matched pre post = []"
| "expandReplacement [c] matched pre post = [c]"
| "expandReplacement (c # d # t) matched pre post =
     (if c = CHR ''$'' \<and> d = CHR ''$'' then CHR ''$'' # expandReplacement t matched pre post
      else if c = CHR ''$'' \<and> d = CHR ''&'' then matched @ expandReplacement t matched pre post
      else if c = CHR ''$'' \<and> d = CHR 0x60 then pre @ expandReplacement t matched pre post
      else if c = CHR ''$'' \<and> d = CHR 0x27 then post @ expandReplacement t matched pre post
      else c # expandReplacement (d # t) matched pre post)"

function replaceAllFrom :: "string \<Rightarrow> string \<Rightarrow> string \<Rightarrow> string \<Rightarrow> string" where
  "replaceAllFrom pat tmpl pre [] =
     (if pat = [] then expandReplacement tmpl [] pre [] else [])"
| "replaceAllFrom pat tmpl pre (c # cs) =
     (if pat = [] then
        expandReplacement tmpl [] pre (c # cs) @ c # replaceAllFrom pat tmpl (pre @ [c]) cs
      else if prefix pat (c # cs) then
        expandReplacement tmpl pat pre (drop (length pat) (c # cs))
          @ replaceAllFrom pat tmpl (pre @ pat) (drop (length pat) (c # cs))
      else c # replaceAllFrom pat tmpl (pre @ [c]) cs)"
  by pat_completeness auto
termination
  by (relation "measure (\<lambda>(pat, tmpl, pre, s). length s)") (auto simp: neq_Nil_conv)

definition replaceAll :: "string \<Rightarrow> string \<Rightarrow> string \<Rightarrow> string" where
  "replaceAll pat tmpl s = replaceAllFrom pat tmpl [] s"

fun replaceFirstFrom :: "(string \<Rightarrow> nat option) \<Rightarrow> string \<Rightarrow> string \<Rightarrow> string \<Rightarrow> string" where
  "replaceFirstFrom at tmpl pre [] =
     (case at [] of Some n \<Rightarrow> expandReplacement tmpl [] pre [] | None \<Rightarrow> [])"
| "replaceFirstFrom at tmpl pre (c # cs) =
     (case at (c # cs) of
        Some n \<Rightarrow>
          expandReplacement tmpl (take n (c # cs)) pre (drop n (c # cs)) @ drop n (c # cs)
      | None \<Rightarrow> c # replaceFirstFrom at tmpl (pre @ [c]) cs)"

definition tagValuePattern :: "string \<Rightarrow> nat option" where
  "tagValuePattern s =
     (let v = takeWhile (\<lambda>c. c \<noteq> CHR ''&'') (drop 4 s)
      in if prefix ''tag='' s \<and> v \<noteq> [] then Some (4 + length v) else None)"

subsection \<open>URLSearchParams\<close>

definition sp_has :: "string \<Rightarrow> (string \<times> string) list \<Rightarrow> bool" where
  "sp_has n ps = (n \<in> set (map fst ps))"

definition sp_delete :: "string \<Rightarrow> (string \<times> string) list \<Rightarrow> (string \<times> string) list" where
  "sp_delete n ps = filter (\<lambda>kv. fst kv \<noteq> n) ps"

fun sp_set :: "string \<Rightarrow> string \<Rightarrow> (string \<times> string) list \<Rightarrow> (string \<times> string) list" where
  "sp_set n v [] = [(n, v)]"
| "sp_set n v (kv # ps) =
     (if fst kv = n then (n, v) # sp_delete n ps else kv # sp_set n v ps)"

subsection \<open>The methods of the plugin\<close>

definition amazon_detect :: "platform \<Rightarrow> string \<Rightarrow> bool" where
  "amazon_detect pf u =
     (case parseURL pf u of
        None \<Rightarrow> False
      | Some parsed \<Rightarrow>
          (let host = removeFirst ''www.'' (toLowerCase (hostname parsed));
               isAmazonDomain = list_ex (isDomainOf host) AMAZON_DOMAINS
           in if \<not> isAmazonDomain then False
              else
                (let hasTag = (sp_has ''tag'' (searchParams parsed) \<or> str_includes u ''tag=''
                                \<or> str_includes u ''linkCode='' \<or> str_includes u ''creative=''
                                \<or> str_includes u ''camp='');
                     isProductLink = list_ex (\<lambda>pattern. regexSearch pattern u \<noteq> None) AMAZON_PATTERNS
                 in hasTag \<or> isProductLink)))"

definition updateTag :: "platform \<Rightarrow> string \<Rightarrow> string option \<Rightarrow> string" where
  "updateTag pf u tg =
     (case tg of
        None \<Rightarrow> u
      | Some t \<Rightarrow>
          if \<not> truthy t then u
          else (case parseURL pf u of
                  Some parsed \<Rightarrow>
                    serializeURL pf
                      (parsed\<lparr>searchParams :=
                         sp_set ''tag'' t
                           (sp_delete ''ref'' (sp_delete ''camp'' (sp_delete ''creativeASIN''
                              (sp_delete ''creative'' (sp_delete ''linkCode''
                                 (sp_delete ''tag'' (searchParams parsed)))))))\<rparr>)
                | None \<Rightarrow>
                    if str_includes u ''tag='' then replaceFirstFrom tagValuePattern (''tag='' @ t) [] u
                    else (let separator = (if str_includes u ''?'' then ''&'' else ''?'')
                          in u @ separator @ ''tag='' @ t)))"

definition amazon_convert :: "platform \<Rightarrow> string \<Rightarrow> NetworkOptions \<Rightarrow> string" where
  "amazon_convert pf u options =
     (case extractProductId u of
        None \<Rightarrow> updateTag pf u (o_tag options)
      | Some asin \<Rightarrow>
          (let domain = extractDomain pf u;
               cleanUrl = ''https://www.'' @ domain @ ''/dp/'' @ asin
           in case o_tag options of
                None \<Rightarrow> cleanUrl
              | Some t \<Rightarrow> if truthy t then cleanUrl @ ''?tag='' @ t else cleanUrl))"

definition amazon_generateSlug :: "platform \<Rightarrow> nat \<Rightarrow> string \<Rightarrow> string \<Rightarrow> string" where
  "amazon_generateSlug pf now u txt =
     (if truthy txt \<and> txt \<noteq> u then stripTrailingDashes (take 50 (slugify pf txt))
      else (case extractProductId u of
              Some asin \<Rightarrow> ''amazon-'' @ toLowerCase asin
            | None \<Rightarrow> ''amazon-product-'' @ toStringRadix 36 now))"

definition createAmazonPlugin :: "platform \<Rightarrow> NetworkPlugin" where
  "createAmazonPlugin pf =
     \<lparr>p_name = ''amazon'', p_detect = amazon_detect pf, p_convert = amazon_convert pf,
      p_extractProductId = extractProductId, p_generateSlug = amazon_generateSlug pf\<rparr>"

section \<open>Slug assignment (Transformer.generateLinkMap, Reporter.toAffiliateLinks)\<close>

text \<open>
  The two methods have the same loop; the reporter's configuration is optional and its
  result is the array of the map's values. \<open>assignStep\<close> is one iteration of the loop
  on the state (the map and the set of reserved slugs), \<open>finalUrl\<close> the computation of
  \<^verbatim>\<open>finalUrl\<close> in it. The clock is a function from the position of an occurrence in
  the list to the reading \<^verbatim>\<open>Date.now()\<close> would give while that occurrence is
  processed.
\<close>

record assignState =
  linkMap :: "(string \<times> AffiliateLink) list"
  usedSlugs :: "string list"

definition set_add :: "'a \<Rightarrow> 'a list \<Rightarrow> 'a list" where
  "set_add x xs = (if x \<in> set xs then xs else xs @ [x])"

definition finalUrl :: "LinksmithConfig option \<Rightarrow> (string \<times> NetworkPlugin) list \<Rightarrow> ExtractedLink \<Rightarrow> string" where
  "finalUrl config pm link =
     (case network link of
        None \<Rightarrow> url link
      | Some n \<Rightarrow>
          if \<not> truthy n then url link
          else (case config of
                  None \<Rightarrow> url link
                | Some cfg \<Rightarrow>
                    (case (map_of pm n, networks cfg n) of
                       (Some plugin, Some networkConfig) \<Rightarrow>
                         if enabled networkConfig
                         then p_convert plugin (url link)
                                \<lparr>o_tag = tag networkConfig,
                                 o_cleanParams = Some (case cleanParams networkConfig of
                                                         None \<Rightarrow> True | Some b \<Rightarrow> b)\<rparr>
                         else url link
                     | _ \<Rightarrow> url link)))"

definition assignStep ::
  "platform \<Rightarrow> LinksmithConfig option \<Rightarrow> (string \<times> NetworkPlugin) list \<Rightarrow> nat \<Rightarrow> assignState \<Rightarrow> ExtractedLink \<Rightarrow> assignState" where
  "assignStep pf config pm now st link =
     (if \<not> startsWith (url link) ''http'' then st
      else if map_has (linkMap st) (url link) then st
      else
        (let baseSlug = generateSlug pf pm now link;
             s = collisionLoop pf (usedSlugs st) (url link) baseSlug baseSlug 1
         in \<lparr>linkMap =
               map_set (url link)
                 \<lparr>slug = s,
                  name = (if truthy (linkText link) then linkText link else url link),
                  a_url = finalUrl config pm link,
                  is_affiliate = isAffiliate link,
                  a_network = network link,
                  created_at = None\<rparr>
                 (linkMap st),
             usedSlugs = set_add s (usedSlugs st)\<rparr>))"

fun assignLoop ::
  "platform \<Rightarrow> LinksmithConfig option \<Rightarrow> (string \<times> NetworkPlugin) list \<Rightarrow> (nat \<Rightarrow> nat) \<Rightarrow> nat \<Rightarrow> ExtractedLink list \<Rightarrow> assignState \<Rightarrow> assignState" where
  "assignLoop pf config pm clock i [] st = st"
| "assignLoop pf config pm clock i (link # links) st =
     assignLoop pf config pm clock (Suc i) links (assignStep pf config pm (clock i) st link)"

definition generateLinkMap ::
  "platform \<Rightarrow> LinksmithConfig \<Rightarrow> (string \<times> NetworkPlugin) list \<Rightarrow> (nat \<Rightarrow> nat) \<Rightarrow> ExtractedLink list \<Rightarrow> (string \<times> AffiliateLink) list" where
  "generateLinkMap pf config pm clock links =
     linkMap (assignLoop pf (Some config) pm clock 0 links \<lparr>linkMap = [], usedSlugs = []\<rparr>)"

definition toAffiliateLinks ::
  "platform \<Rightarrow> LinksmithConfig option \<Rightarrow> (string \<times> NetworkPlugin) list \<Rightarrow> (nat \<Rightarrow> nat) \<Rightarrow> ExtractedLink list \<Rightarrow> AffiliateLink list" where
  "toAffiliateLinks pf config pm clock links =
     map_values (linkMap (assignLoop pf config pm clock 0 links \<lparr>linkMap = [], usedSlugs = []\<rparr>))"

section \<open>Conversion (Converter.convert)\<close>

record ConversionResult =
  cr_original :: string
  cr_converted :: string
  cr_network :: string
  cr_tag :: "string option"

definition converter_convert :: "LinksmithConfig \<Rightarrow> (string \<times> NetworkPlugin) list \<Rightarrow> ExtractedLink \<Rightarrow> ConversionResult option" where
  "converter_convert config pm link =
     (case network link of
        None \<Rightarrow> None
      | Some n \<Rightarrow>
          if \<not> truthy n then None
          else (case map_of pm n of
                  None \<Rightarrow> None
                | Some plugin \<Rightarrow>
                    (case networks config n of
                       None \<Rightarrow> None
                     | Some networkConfig \<Rightarrow>
                         if \<not> enabled networkConfig then None
                         else Some \<lparr>cr_original = url link,
                                    cr_converted = p_convert plugin (url link)
                                      \<lparr>o_tag = tag networkConfig,
                                       o_cleanParams = Some (case cleanParams networkConfig of
                                                               None \<Rightarrow> True | Some b \<Rightarrow> b)\<rparr>,
                                    cr_network = n, cr_tag = tag networkConfig\<rparr>)))"

section \<open>Content rewrite (Transformer.transformFile)\<close>

text \<open>
  The content of the file is an argument. \<open>sortLinks\<close> is the stable sort with the
  comparator \<open>compareLinks\<close>. The regular expression of the substitution is built from
  escaped characters only; \<open>regexLiteral\<close> is the text such an expression matches, so
  \<open>urlPattern u\<close> is the text the expression of \<open>u\<close> matches. \<open>transformStep\<close> is one
  iteration of the loop on the pair of the content and the changes.
\<close>

record Change =
  original :: string
  c_slug :: string
  trackingUrl :: string

record TransformResult =
  r_file :: string
  originalContent :: string
  transformedContent :: string
  linksTransformed :: nat
  changes :: "Change list"

definition compareLinks :: "ExtractedLink \<Rightarrow> ExtractedLink \<Rightarrow> int" where
  "compareLinks a b = (if line a \<noteq> line b then line b - line a else column b - column a)"

fun insertLink :: "ExtractedLink \<Rightarrow> ExtractedLink list \<Rightarrow> ExtractedLink list" where
  "insertLink x [] = [x]"
| "insertLink x (y # ys) = (if compareLinks y x \<le> 0 then y # insertLink x ys else x # y # ys)"

definition sortLinks :: "ExtractedLink list \<Rightarrow> ExtractedLink list" where
  "sortLinks links = foldl (\<lambda>sorted x. insertLink x sorted) [] links"

definition regexSpecial :: "char \<Rightarrow> bool" where
  "regexSpecial c = (c \<in> set (''.*+?^${}()|[]'' @ [CHR 0x5C]))"

definition escapeRegex :: "string \<Rightarrow> string" where
  "escapeRegex s = concat (map (\<lambda>c. if regexSpecial c then [CHR 0x5C, c] else [c]) s)"

fun regexLiteral :: "string \<Rightarrow> string" where
  "regexLiteral [] = []"
| "regexLiteral [c] = [c]"
| "regexLiteral (c # d # cs) =
     (if c = CHR 0x5C then d # regexLiteral cs else c # regexLiteral (d # cs))"

definition urlPattern :: "string \<Rightarrow> string" where
  "urlPattern u = regexLiteral ([CHR 0x5C] @ '']'' @ [CHR 0x5C] @ ''('' @ escapeRegex u @ [CHR 0x5C] @ '')'')"

definition findOrGenerateSlug ::
  "platform \<Rightarrow> (string \<times> NetworkPlugin) list \<Rightarrow> nat \<Rightarrow> ExtractedLink \<Rightarrow> (string \<times> AffiliateLink) list \<Rightarrow> string" where
  "findOrGenerateSlug pf pm now link lm =
     (case map_of lm (url link) of
        Some existing \<Rightarrow> slug existing
      | None \<Rightarrow> generateSlug pf pm now link)"

definition transformStep ::
  "platform \<Rightarrow> LinksmithConfig \<Rightarrow> (string \<times> NetworkPlugin) list \<Rightarrow> (string \<times> AffiliateLink) list \<Rightarrow> nat \<Rightarrow> string \<times> Change list \<Rightarrow> ExtractedLink \<Rightarrow> string \<times> Change list" where
  "transformStep pf config pm lm now st link =
     (if \<not> startsWith (url link) ''http'' then st
      else
        (let s = findOrGenerateSlug pf pm now link lm;
             tracking = trackingBaseUrl config @ s;
             beforeReplace = fst st;
             transformedContent = replaceAll (urlPattern (url link)) ('']('' @ tracking @ '')'') beforeReplace
         in if transformedContent \<noteq> beforeReplace
            then (transformedContent,
                  snd st @ [\<lparr>original = url link, c_slug = s, trackingUrl = tracking\<rparr>])
            else (transformedContent, snd st)))"

fun transformLoop ::
  "platform \<Rightarrow> LinksmithConfig \<Rightarrow> (string \<times> NetworkPlugin) list \<Rightarrow> (string \<times> AffiliateLink) list \<Rightarrow> (nat \<Rightarrow> nat) \<Rightarrow> nat \<Rightarrow> ExtractedLink list \<Rightarrow> string \<times> Change list \<Rightarrow> string \<times> Change list" where
  "transformLoop pf config pm lm clock i [] st = st"
| "transformLoop pf config pm lm clock i (link # links) st =
     transformLoop pf config pm lm clock (Suc i) links (transformStep pf config pm lm (clock i) st link)"

definition transformFile ::
  "platform \<Rightarrow> LinksmithConfig \<Rightarrow> (string \<times> NetworkPlugin) list \<Rightarrow> (nat \<Rightarrow> nat) \<Rightarrow> string \<Rightarrow> string \<Rightarrow> ExtractedLink list \<Rightarrow> (string \<times> AffiliateLink) list \<Rightarrow> TransformResult" where
  "transformFile pf config pm clock path content links lm =
     (let sortedLinks = sortLinks links;
          final = transformLoop pf config pm lm clock 0 sortedLinks (content, [])
      in \<lparr>r_file = path, originalContent = content, transformedContent = fst final,
          linksTransformed = length (snd final), changes = snd final\<rparr>)"

section \<open>Notions used in the statements and proofs\<close>

text \<open>
  \<open>qualifies\<close> is the test both loops apply to an occurrence. \<open>rewriteTrace\<close> lists, for
  every occurrence the rewrite loop processes, the occurrence, the clock reading, the
  content before the step and the content after it; a step is \<open>altered\<close> when the two
  differ. \<open>changeFor\<close> is the change entry of an occurrence. \<open>noBracket\<close> and
  \<open>plainTracking\<close> describe URLs and tracking URLs without the characters that close
  a markdown link or start a replacement pattern.
\<close>

definition qualifies :: "ExtractedLink \<Rightarrow> bool" where
  "qualifies l = startsWith (url l) ''http''"

definition entryFor :: "LinksmithConfig option \<Rightarrow> (string \<times> NetworkPlugin) list \<Rightarrow> string \<Rightarrow> ExtractedLink \<Rightarrow> AffiliateLink" where
  "entryFor config pm s link =
     \<lparr>slug = s, name = (if truthy (linkText link) then linkText link else url link),
      a_url = finalUrl config pm link, is_affiliate = isAffiliate link,
      a_network = network link, created_at = None\<rparr>"

definition assignInv :: "assignState \<Rightarrow> bool" where
  "assignInv st =
     (distinct (map fst (linkMap st)) \<and>
      distinct (map (\<lambda>e. slug (snd e)) (linkMap st)) \<and>
      set (map (\<lambda>e. slug (snd e)) (linkMap st)) \<subseteq> set (usedSlugs st))"

definition slugPairs :: "AffiliateLink list \<Rightarrow> (string \<times> AffiliateLink) list" where
  "slugPairs ls = map (\<lambda>l. (slug l, l)) ls"

definition keyed :: "(string \<times> AffiliateLink) list \<Rightarrow> bool" where
  "keyed m = (distinct (map fst m) \<and> (\<forall>kv \<in> set m. fst kv = slug (snd kv)))"

definition changeFor ::
  "platform \<Rightarrow> LinksmithConfig \<Rightarrow> (string \<times> NetworkPlugin) list \<Rightarrow> (string \<times> AffiliateLink) list \<Rightarrow> nat \<Rightarrow> ExtractedLink \<Rightarrow> Change" where
  "changeFor pf config pm lm now link =
     \<lparr>original = url link, c_slug = findOrGenerateSlug pf pm now link lm,
      trackingUrl = trackingBaseUrl config @ findOrGenerateSlug pf pm now link lm\<rparr>"

fun rewriteTrace ::
  "platform \<Rightarrow> LinksmithConfig \<Rightarrow> (string \<times> NetworkPlugin) list \<Rightarrow> (string \<times> AffiliateLink) list \<Rightarrow> (nat \<Rightarrow> nat) \<Rightarrow> nat \<Rightarrow> ExtractedLink list \<Rightarrow> string \<Rightarrow> (ExtractedLink \<times> nat \<times> string \<times> string) list" where
  "rewriteTrace pf config pm lm clock i [] content = []"
| "rewriteTrace pf config pm lm clock i (link # links) content =
     (let content' = fst (transformStep pf config pm lm (clock i) (content, []) link)
      in (link, clock i, content, content') # rewriteTrace pf config pm lm clock (Suc i) links content')"

definition altered :: "ExtractedLink \<times> nat \<times> string \<times> string \<Rightarrow> bool" where
  "altered step = (snd (snd (snd step)) \<noteq> fst (snd (snd step)))"




section \<open>A sample platform and sample inputs\<close>

text \<open>
  A small URL parser and slugify for concrete instances: the parser reads
  \<^verbatim>\<open>http://\<close> and \<^verbatim>\<open>https://\<close> URLs (host, path, query, fragment), the slugify
  lower-cases, keeps letters, digits and dashes, and turns spaces into dashes.
\<close>

definition demoSlugify :: "string \<Rightarrow> string" where
  "demoSlugify s =
     map (\<lambda>c. if c = CHR '' '' then CHR ''-'' else c)
       (filter (\<lambda>c. isAlnum c \<or> c = CHR '' '' \<or> c = CHR ''-'') (toLowerCase s))"

definition demoParseURL :: "string \<Rightarrow> URL option" where
  "demoParseURL s =
     (let scheme = (if prefix ''https://'' s then ''https:'' else if prefix ''http://'' s then ''http:'' else []);
          rest = drop (length scheme + 2) s;
          host = takeWhile (\<lambda>c. c \<notin> set ''/?#'') rest;
          afterHost = dropWhile (\<lambda>c. c \<notin> set ''/?#'') rest;
          path = takeWhile (\<lambda>c. c \<notin> set ''?#'') afterHost;
          afterPath = dropWhile (\<lambda>c. c \<notin> set ''?#'') afterHost;
          query = (if prefix ''?'' afterPath then takeWhile (\<lambda>c. c \<noteq> CHR ''#'') (tl afterPath) else []);
          params = map (\<lambda>kv. (takeWhile (\<lambda>c. c \<noteq> CHR ''='') kv,
                               drop 1 (dropWhile (\<lambda>c. c \<noteq> CHR ''='') kv)))
                     (filter truthy (splitOn (CHR ''&'') query))
      in if scheme = [] \<or> host = [] then None
         else Some \<lparr>protocol = scheme, username = [], password = [], hostname = toLowerCase host,
                    port = [], pathname = (if path = [] then ''/'' else path),
                    searchParams = params,
                    hash = dropWhile (\<lambda>c. c \<noteq> CHR ''#'') afterPath\<rparr>)"

fun joinWith :: "string \<Rightarrow> string list \<Rightarrow> string" where
  "joinWith sep [] = []"
| "joinWith sep [x] = x"
| "joinWith sep (x # y # xs) = x @ sep @ joinWith sep (y # xs)"

definition demoSerializeURL :: "URL \<Rightarrow> string" where
  "demoSerializeURL u =
     protocol u @ ''//'' @ hostname u @ pathname u
       @ (if searchParams u = [] then []
          else ''?'' @ joinWith ''&'' (map (\<lambda>kv. fst kv @ ''='' @ snd kv) (searchParams u)))
       @ hash u"

definition demoPlatform :: platform where
  "demoPlatform = \<lparr>slugify = demoSlugify, parseURL = demoParseURL, serializeURL = demoSerializeURL\<rparr>"

definition demoConfig :: LinksmithConfig where
  "demoConfig =
     \<lparr>siteUrl = ''https://example.com'', trackingBaseUrl = ''/link/'',
      networks = (\<lambda>n. if n = ''amazon''
                       then Some \<lparr>enabled = True, tag = Some ''donkitchencom-20'', cleanParams = Some True\<rparr>
                       else None)\<rparr>"


definition amazonPlugins :: "(string \<times> NetworkPlugin) list" where
  "amazonPlugins = pluginMap [createAmazonPlugin demoPlatform]"

definition sampleAmazonUrl :: string where
  "sampleAmazonUrl = ''https://www.amazon.com/gp/product/B000A6PPOK/ref=as_li_ss_tl?camp=1789&creative=390957&tag=donkitchencom-20''"

definition productLink :: ExtractedLink where
  "productLink =
     \<lparr>url = sampleAmazonUrl, linkText = ''Best Blender'', filePath = ''post.md'', line = 3, column = 1,
      isAffiliate = True, network = Some ''amazon''\<rparr>"

definition shortLink :: ExtractedLink where
  "shortLink =
     \<lparr>url = ''https://amzn.to/3xYz'', linkText = ''https://amzn.to/3xYz'', filePath = ''post.md'',
      line = 5, column = 1, isAffiliate = True, network = Some ''amazon''\<rparr>"

definition plainLink :: "int \<Rightarrow> int \<Rightarrow> ExtractedLink" where
  "plainLink ln col =
     \<lparr>url = ''https://shop.example.org/blender'', linkText = ''Best Blender'', filePath = ''post.md'',
      line = ln, column = col, isAffiliate = False, network = None\<rparr>"

definition relativeLink :: ExtractedLink where
  "relativeLink =
     \<lparr>url = ''httpd.html'', linkText = ''Apache guide'', filePath = ''post.md'',
      line = 1, column = 1, isAffiliate = False, network = None\<rparr>"


definition htmlDoc :: string where
  "htmlDoc = ''<a href=https://shop.example.org/blender>Best Blender</a>''"

definition relativeDoc :: string where
  "relativeDoc = ''See the [Apache guide](httpd.html).''"

definition takenSlugs :: "string list" where
  "takenSlugs = [''best-blender'', ''best-blender-amazon'', ''best-blender-2'']"

definition blenderA :: AffiliateLink where
  "blenderA = \<lparr>slug = ''best-blender'', name = ''Best Blender'', a_url = ''https://a.example/blender'',
     is_affiliate = False, a_network = None, created_at = None\<rparr>"

definition blenderB :: AffiliateLink where
  "blenderB = \<lparr>slug = ''best-blender'', name = ''Best Blender'', a_url = ''https://b.example/blender'',
     is_affiliate = False, a_network = None, created_at = None\<rparr>"

definition kettle :: AffiliateLink where
  "kettle = \<lparr>slug = ''kettle'', name = ''Kettle'', a_url = ''https://c.example/kettle'',
     is_affiliate = False, a_network = None, created_at = None\<rparr>"

section \<open>Properties of the store\<close>

lemma map_of_foldl_set:
  "map_of (foldl (\<lambda>m kv. map_set (fst kv) (snd kv) m) m0 ps) = map_of m0 ++ map_of (rev ps)"
proof (induction ps arbitrary: m0)
  case Nil
  show ?case by simp
next
  case (Cons p ps)
  have h: "map_of (map_set (fst p) (snd p) m0) = map_of m0 ++ map_of [p]"
    by (cases p) (simp add: map_set_def update_conv')
  show ?case
    using Cons.IH [of "map_set (fst p) (snd p) m0"]
    by (simp only: foldl_Cons h rev.simps map_of_append map_add_assoc)
qed

lemma keyed_Nil: "keyed []"
  by (simp add: keyed_def)

lemma set_update_subset: "set (AList.update k v m) \<subseteq> insert (k, v) (set m)"
  by (induction m) auto

lemma keyed_map_set: "keyed m \<Longrightarrow> keyed (map_set (slug l) l m)"
  unfolding keyed_def map_set_def
  using set_update_subset [of "slug l" l m] by (auto simp: distinct_update)

lemma mergeLinks_pairs:
  "mergeLinks m ls = foldl (\<lambda>m kv. map_set (fst kv) (snd kv) m) m (slugPairs ls)"
  by (simp add: mergeLinks_def slugPairs_def foldl_map)

lemma keyed_mergeLinks: "keyed m \<Longrightarrow> keyed (mergeLinks m ls)"
  unfolding mergeLinks_def
  by (induction ls arbitrary: m) (simp_all add: keyed_map_set)

lemma new_Map_pairs: "new_Map (slugPairs ls) = mergeLinks [] ls"
  by (simp add: new_Map_def mergeLinks_pairs)

lemma keyed_new_Map: "keyed (new_Map (slugPairs ls))"
  by (simp add: new_Map_pairs keyed_mergeLinks keyed_Nil)

lemma map_of_mergeLinks:
  "map_of (mergeLinks m ls) = map_of m ++ map_of (rev (slugPairs ls))"
  by (simp add: mergeLinks_pairs map_of_foldl_set)

lemma find_keyed: "keyed m \<Longrightarrow> find (\<lambda>l. slug l = s) (map snd m) = map_of m s"
proof (induction m)
  case Nil
  show ?case by simp
next
  case (Cons p m)
  then have "keyed m" and "fst p = slug (snd p)"
    by (auto simp: keyed_def)
  with Cons.IH show ?case by (cases p) auto
qed

lemma filter_keyed:
  "keyed m \<Longrightarrow> map_of m s = Some l \<Longrightarrow> filter (\<lambda>r. slug r = s) (map snd m) = [l]"
proof (induction m)
  case Nil
  then show ?case by simp
next
  case (Cons p m)
  from Cons.prems(1) have d: "distinct (map fst (p # m))"
    and al: "\<forall>kv \<in> set (p # m). fst kv = slug (snd kv)"
    unfolding keyed_def by blast+
  from d have fresh: "fst p \<notin> set (map fst m)" and dm: "distinct (map fst m)" by simp_all
  from al have kp: "fst p = slug (snd p)" and sl: "\<forall>kv \<in> set m. fst kv = slug (snd kv)"
    by simp_all
  from dm sl have km: "keyed m" unfolding keyed_def by blast
  show ?case
  proof (cases "fst p = s")
    case True
    then have "snd p = l" using Cons.prems(2) by (cases p) simp
    moreover have "filter (\<lambda>r. slug r = s) (map snd m) = []"
      using fresh sl True by (force simp: filter_empty_conv image_iff)
    ultimately show ?thesis using True kp by simp
  next
    case False
    then have "map_of m s = Some l" using Cons.prems(2) by (cases p) (simp split: if_splits)
    with Cons.IH km have "filter (\<lambda>r. slug r = s) (map snd m) = [l]" by simp
    with False kp show ?thesis by simp
  qed
qed


lemma map_of_rev_slugPairs_last:
  "slug l \<notin> slug ` set ys \<Longrightarrow> map_of (rev (slugPairs (xs @ l # ys))) (slug l) = Some l"
proof -
  assume a: "slug l \<notin> slug ` set ys"
  have "map_of (rev (slugPairs ys)) (slug l) = None"
    using a by (auto simp: slugPairs_def map_of_eq_None_iff image_iff)
  then show ?thesis
    by (simp add: slugPairs_def map_of_append map_add_def rev_map [symmetric])
qed



lemma getLinks_upsertLinks:
  "getLinks (upsertLinks st links) = map snd (mergeLinks (new_Map (slugPairs (getLinks st))) links)"
  by (simp add: upsertLinks_def getLinks_def map_values_def slugPairs_def Let_def)

lemma keyed_merged: "keyed (mergeLinks (new_Map (slugPairs old)) links)"
  by (rule keyed_mergeLinks) (rule keyed_new_Map)

lemma map_of_merged:
  "map_of (mergeLinks (new_Map (slugPairs old)) links) =
     map_of (rev (slugPairs old)) ++ map_of (rev (slugPairs links))"
  by (simp add: new_Map_pairs map_of_mergeLinks)




text \<open>
  Claim C9. An upsert writes every record of the batch under its slug, and the record
  written last for a slug is the record the store holds for that slug afterwards, whole,
  whatever the store held before: \<open>getLinkBySlug\<close> returns exactly that record, and it
  is the only record with that slug in the file. For the example of the specification
  (slug \<^verbatim>\<open>best-blender\<close>, old url A, new url B) the persisted url is B.
\<close>

theorem upsert_new_value_wins:
  assumes "slug l \<notin> slug ` set ys"
  shows "getLinkBySlug (upsertLinks st (xs @ l # ys)) (slug l) = Some l \<and>
         filter (\<lambda>r. slug r = slug l) (getLinks (upsertLinks st (xs @ l # ys))) = [l]"
proof -
  let ?m = "mergeLinks (new_Map (slugPairs (getLinks st))) (xs @ l # ys)"
  have k: "keyed ?m" by (rule keyed_merged)
  have "map_of ?m (slug l) = Some l"
    using map_of_rev_slugPairs_last [OF assms, of xs]
    by (simp only: map_of_merged map_add_Some_iff) simp
  with k show ?thesis
    by (simp add: getLinkBySlug_def getLinks_upsertLinks find_keyed filter_keyed)
qed

theorem upsert_new_value_wins_witness:
  "getLinkBySlug (upsertLinks (Some [kettle, blenderA]) [blenderB]) ''best-blender'' = Some blenderB \<and>
   a_url (the (getLinkBySlug (upsertLinks (Some [kettle, blenderA]) [blenderB]) ''best-blender'')) =
     ''https://b.example/blender''"
  using upsert_new_value_wins [of blenderB "[]" "Some [kettle, blenderA]" "[]"]
  by (simp add: blenderB_def)



section \<open>Properties of the collision resolution\<close>

lemma collisionLoop_free: "collisionLoop pf used u b s c \<notin> set used"
proof (induction pf used u b s c rule: collisionLoop.induct)
  case (1 pf usedSlugs u baseSlug s counter)
  show ?case
    using "1.IH"
    by (subst collisionLoop.simps) (auto split: option.splits)
qed

lemma collisionLoop_numeric:
  assumes "domainCandidate pf u b = None \<or> (\<exists>d. domainCandidate pf u b = Some d \<and> d \<in> set used)"
    and "s \<in> set used"
  shows "\<exists>n>c. collisionLoop pf used u b s c = numbered b n \<and> numbered b n \<notin> set used \<and>
               (\<forall>m. c < m \<and> m < n \<longrightarrow> numbered b m \<in> set used)"
  using assms
proof (induction pf used u b s c rule: collisionLoop.induct)
  case (1 pf usedSlugs u baseSlug s counter)
  let ?next = "numbered baseSlug (counter + 1)"
  have step: "collisionLoop pf usedSlugs u baseSlug s counter =
              collisionLoop pf usedSlugs u baseSlug ?next (counter + 1)"
    using "1.prems" by (subst collisionLoop.simps) (auto split: option.splits)
  show ?case
  proof (cases "?next \<in> set usedSlugs")
    case False
    then have "collisionLoop pf usedSlugs u baseSlug ?next (counter + 1) = ?next"
      by (subst collisionLoop.simps) simp
    with step False show ?thesis
      by (intro exI [of _ "counter + 1"]) auto
  next
    case True
    have "\<exists>n>counter + 1. collisionLoop pf usedSlugs u baseSlug ?next (counter + 1) = numbered baseSlug n \<and>
            numbered baseSlug n \<notin> set usedSlugs \<and>
            (\<forall>m. counter + 1 < m \<and> m < n \<longrightarrow> numbered baseSlug m \<in> set usedSlugs)"
    proof (cases "domainCandidate pf u baseSlug")
      case None
      show ?thesis
        using "1.IH"(1) [OF "1.prems"(2) None "1.prems"(1) True] .
    next
      case (Some d)
      with "1.prems"(1) have "\<not> d \<notin> set usedSlugs" by simp
      show ?thesis
        using "1.IH"(2) [OF "1.prems"(2) Some \<open>\<not> d \<notin> set usedSlugs\<close> "1.prems"(1) True] .
    qed
    then obtain n where n: "n > counter + 1"
      "collisionLoop pf usedSlugs u baseSlug ?next (counter + 1) = numbered baseSlug n"
      "numbered baseSlug n \<notin> set usedSlugs"
      "\<forall>m. counter + 1 < m \<and> m < n \<longrightarrow> numbered baseSlug m \<in> set usedSlugs"
      by blast
    have "\<forall>m. counter < m \<and> m < n \<longrightarrow> numbered baseSlug m \<in> set usedSlugs"
    proof (intro allI impI)
      fix m assume "counter < m \<and> m < n"
      then have "m = counter + 1 \<or> (counter + 1 < m \<and> m < n)" by arith
      with True n(4) show "numbered baseSlug m \<in> set usedSlugs" by blast
    qed
    with n step show ?thesis
      by (intro exI [of _ n]) simp
  qed
qed

lemma demo_parse_sample:
  "parseURL demoPlatform sampleAmazonUrl =
     Some \<lparr>protocol = ''https:'', username = [], password = [], hostname = ''www.amazon.com'',
           port = [], pathname = ''/gp/product/B000A6PPOK/ref=as_li_ss_tl'',
           searchParams = [(''camp'', ''1789''), (''creative'', ''390957''), (''tag'', ''donkitchencom-20'')], hash = []\<rparr>"
  by code_simp

lemma demo_hostLabel: "hostLabel ''www.amazon.com'' = ''amazon''" by code_simp

lemma numberToString_2: "numberToString 2 = ''2''" by code_simp

lemma numberToString_3: "numberToString 3 = ''3''" by code_simp

text \<open>
  Claim C2. The slug the loop assigns is never a reserved one. A base slug that is free
  is assigned as it is. When the base slug is reserved, the loop first tries the base
  slug followed by a dash and the host label of the URL and assigns it if it is free;
  otherwise (the candidate is reserved, or the URL does not parse) it assigns the
  candidate \<^verbatim>\<open><base>-n\<close> for the least \<open>n\<close> from 2 on that is free: every candidate from
  \<^verbatim>\<open><base>-2\<close> on is checked against the reserved set.
\<close>

theorem collision_resolution:
  "collisionLoop pf used u baseSlug baseSlug 1 \<notin> set used \<and>
   (baseSlug \<notin> set used \<longrightarrow> collisionLoop pf used u baseSlug baseSlug 1 = baseSlug) \<and>
   (baseSlug \<in> set used \<longrightarrow>
      (\<forall>parsed. parseURL pf u = Some parsed \<and>
                baseSlug @ ''-'' @ hostLabel (hostname parsed) \<notin> set used \<longrightarrow>
         collisionLoop pf used u baseSlug baseSlug 1 = baseSlug @ ''-'' @ hostLabel (hostname parsed)) \<and>
      (parseURL pf u = None \<or>
       (\<exists>parsed. parseURL pf u = Some parsed \<and>
                  baseSlug @ ''-'' @ hostLabel (hostname parsed) \<in> set used) \<longrightarrow>
         (\<exists>n\<ge>2. collisionLoop pf used u baseSlug baseSlug 1 = baseSlug @ ''-'' @ numberToString n \<and>
                 baseSlug @ ''-'' @ numberToString n \<notin> set used \<and>
                 (\<forall>m. 2 \<le> m \<and> m < n \<longrightarrow> baseSlug @ ''-'' @ numberToString m \<in> set used))))"
proof (intro conjI impI allI)
  show "collisionLoop pf used u baseSlug baseSlug 1 \<notin> set used"
    by (rule collisionLoop_free)
next
  assume "baseSlug \<notin> set used"
  then show "collisionLoop pf used u baseSlug baseSlug 1 = baseSlug"
    by (subst collisionLoop.simps) simp
next
  fix parsed
  assume "baseSlug \<in> set used"
    and "parseURL pf u = Some parsed \<and> baseSlug @ ''-'' @ hostLabel (hostname parsed) \<notin> set used"
  then show "collisionLoop pf used u baseSlug baseSlug 1 = baseSlug @ ''-'' @ hostLabel (hostname parsed)"
    by (subst collisionLoop.simps) (simp add: domainCandidate_def)
next
  assume b: "baseSlug \<in> set used"
    and d: "parseURL pf u = None \<or>
       (\<exists>parsed. parseURL pf u = Some parsed \<and> baseSlug @ ''-'' @ hostLabel (hostname parsed) \<in> set used)"
  from d have "domainCandidate pf u baseSlug = None \<or>
      (\<exists>d. domainCandidate pf u baseSlug = Some d \<and> d \<in> set used)"
    by (auto simp: domainCandidate_def)
  from collisionLoop_numeric [OF this b, of 1]
  obtain n where "n > 1" "collisionLoop pf used u baseSlug baseSlug 1 = numbered baseSlug n"
    "numbered baseSlug n \<notin> set used" "\<forall>m. 1 < m \<and> m < n \<longrightarrow> numbered baseSlug m \<in> set used"
    by blast
  then show "\<exists>n\<ge>2. collisionLoop pf used u baseSlug baseSlug 1 = baseSlug @ ''-'' @ numberToString n \<and>
                 baseSlug @ ''-'' @ numberToString n \<notin> set used \<and>
                 (\<forall>m. 2 \<le> m \<and> m < n \<longrightarrow> baseSlug @ ''-'' @ numberToString m \<in> set used)"
    by (intro exI [of _ n]) (simp add: numbered_def)
qed

theorem collision_resolution_witness:
  "''best-blender'' \<in> set takenSlugs \<and>
   parseURL demoPlatform sampleAmazonUrl \<noteq> None \<and>
   ''best-blender'' @ ''-'' @ hostLabel (hostname (the (parseURL demoPlatform sampleAmazonUrl))) = ''best-blender-amazon'' \<and>
   ''best-blender-amazon'' \<in> set takenSlugs \<and>
   collisionLoop demoPlatform takenSlugs sampleAmazonUrl ''best-blender'' ''best-blender'' 1 = ''best-blender-3'' \<and>
   collisionLoop demoPlatform [''best-blender''] sampleAmazonUrl ''best-blender'' ''best-blender'' 1 = ''best-blender-amazon'' \<and>
   collisionLoop demoPlatform [] sampleAmazonUrl ''best-blender'' ''best-blender'' 1 = ''best-blender''"
proof -
  let ?loop = "collisionLoop demoPlatform takenSlugs sampleAmazonUrl ''best-blender'' ''best-blender'' 1"
  note cr = collision_resolution [of demoPlatform takenSlugs sampleAmazonUrl "''best-blender''"]
  have b: "''best-blender'' \<in> set takenSlugs" by (simp add: takenSlugs_def)
  have lab: "''best-blender'' @ ''-'' @ hostLabel (hostname (the (parseURL demoPlatform sampleAmazonUrl))) = ''best-blender-amazon''"
    by (simp add: demo_parse_sample demo_hostLabel)
  have d: "\<exists>parsed. parseURL demoPlatform sampleAmazonUrl = Some parsed \<and>
      ''best-blender'' @ ''-'' @ hostLabel (hostname parsed) \<in> set takenSlugs"
    by (simp add: demo_parse_sample demo_hostLabel takenSlugs_def)
  from cr b d obtain n where n: "2 \<le> n" "?loop = ''best-blender'' @ ''-'' @ numberToString n"
    "''best-blender'' @ ''-'' @ numberToString n \<notin> set takenSlugs"
    "\<forall>m. 2 \<le> m \<and> m < n \<longrightarrow> ''best-blender'' @ ''-'' @ numberToString m \<in> set takenSlugs"
    by blast
  have "n \<noteq> 2" using n(3) by (auto simp: takenSlugs_def numberToString_2)
  moreover have "\<not> 3 < n"
  proof
    assume "3 < n"
    with n(4) have "''best-blender'' @ ''-'' @ numberToString 3 \<in> set takenSlugs" by simp
    then show False by (simp add: takenSlugs_def numberToString_3)
  qed
  ultimately have "n = 3" using n(1) by arith
  with n(2) have r3: "?loop = ''best-blender-3''" by (simp add: numberToString_3)
  have r1: "collisionLoop demoPlatform [''best-blender''] sampleAmazonUrl ''best-blender'' ''best-blender'' 1 = ''best-blender-amazon''"
    using collision_resolution [of demoPlatform "[''best-blender'']" sampleAmazonUrl "''best-blender''"]
    by (simp add: demo_parse_sample demo_hostLabel)
  have r0: "collisionLoop demoPlatform [] sampleAmazonUrl ''best-blender'' ''best-blender'' 1 = ''best-blender''"
    using collision_resolution [of demoPlatform "[]" sampleAmazonUrl "''best-blender''"]
    by simp
  show ?thesis
    using b lab r3 r1 r0 by (simp add: demo_parse_sample takenSlugs_def)
qed

section \<open>Properties of the slug assignment\<close>

lemma update_fresh: "k \<notin> set (map fst m) \<Longrightarrow> AList.update k v m = m @ [(k, v)]"
  by (induction m) auto

lemma map_has_iff: "map_has m k = (k \<in> set (map fst m))"
  by (simp add: map_has_def map_of_eq_None_iff)

lemma assignStep_cases:
  "assignStep pf config pm now st link =
     (if qualifies link \<and> url link \<notin> set (map fst (linkMap st))
      then \<lparr>linkMap = linkMap st @
               [(url link, entryFor config pm
                   (collisionLoop pf (usedSlugs st) (url link) (generateSlug pf pm now link)
                      (generateSlug pf pm now link) 1) link)],
            usedSlugs = set_add (collisionLoop pf (usedSlugs st) (url link) (generateSlug pf pm now link)
                      (generateSlug pf pm now link) 1) (usedSlugs st)\<rparr>
      else st)"
  by (simp add: assignStep_def qualifies_def map_has_iff map_set_def update_fresh entryFor_def Let_def)

lemma set_set_add: "set (set_add x xs) = insert x (set xs)"
  by (auto simp: set_add_def)

lemma assignInv_step: "assignInv st \<Longrightarrow> assignInv (assignStep pf config pm now st link)"
  using collisionLoop_free [of pf "usedSlugs st" "url link" "generateSlug pf pm now link" "generateSlug pf pm now link" 1]
  unfolding assignStep_cases assignInv_def
  by (auto simp: set_set_add entryFor_def)

lemma assignInv_loop: "assignInv st \<Longrightarrow> assignInv (assignLoop pf config pm clock i links st)"
  by (induction links arbitrary: i st) (simp_all add: assignInv_step)

lemma keys_step:
  "set (map fst (linkMap (assignStep pf config pm now st link))) =
     set (map fst (linkMap st)) \<union> (if qualifies link then {url link} else {})"
  unfolding assignStep_cases by auto

lemma keys_loop:
  "set (map fst (linkMap (assignLoop pf config pm clock i links st))) =
     set (map fst (linkMap st)) \<union> set (map url (filter qualifies links))"
proof (induction links arbitrary: i st)
  case Nil
  show ?case by simp
next
  case (Cons l links)
  show ?case
    unfolding assignLoop.simps Cons.IH keys_step by auto
qed

lemma assignInv_init: "assignInv \<lparr>linkMap = [], usedSlugs = []\<rparr>"
  by (simp add: assignInv_def)


text \<open>
  Claim C1. For every occurrence list, the map of the slug assignment has exactly one
  entry for every distinct qualifying URL (a URL that starts with \<^verbatim>\<open>http\<close>, the test
  the loop applies) and no other entry, and no two entries have the same slug. The
  reporter's array is the array of the values of the same map when it is given the
  same configuration; with any configuration, or none, it has one record for every
  distinct qualifying URL, and its slugs are pairwise distinct.
\<close>

theorem slug_assignment_unique:
  "distinct (map fst (generateLinkMap pf cfg pm clock links)) \<and>
   set (map fst (generateLinkMap pf cfg pm clock links)) =
     set (map url (filter (\<lambda>l. startsWith (url l) ''http'') links)) \<and>
   distinct (map (\<lambda>e. slug (snd e)) (generateLinkMap pf cfg pm clock links)) \<and>
   toAffiliateLinks pf (Some cfg) pm clock links = map snd (generateLinkMap pf cfg pm clock links) \<and>
   distinct (map slug (toAffiliateLinks pf config pm clock links)) \<and>
   length (toAffiliateLinks pf config pm clock links) =
     card (set (map url (filter (\<lambda>l. startsWith (url l) ''http'') links)))"
proof -
  let ?init = "\<lparr>linkMap = [], usedSlugs = []\<rparr>"
  have q: "(\<lambda>l. startsWith (url l) ''http'') = qualifies"
    by (simp add: qualifies_def fun_eq_iff)
  have inv: "\<And>c. assignInv (assignLoop pf c pm clock 0 links ?init)"
    by (rule assignInv_loop) (rule assignInv_init)
  have keys: "\<And>c. set (map fst (linkMap (assignLoop pf c pm clock 0 links ?init))) =
      set (map url (filter qualifies links))"
    by (simp only: keys_loop) simp
  have len: "length (linkMap (assignLoop pf config pm clock 0 links ?init)) =
      card (set (map url (filter qualifies links)))"
    using inv [of config] keys [of config] distinct_card [of "map fst (linkMap (assignLoop pf config pm clock 0 links ?init))"]
    by (simp add: assignInv_def)
  show ?thesis
    using inv [of "Some cfg"] inv [of config] keys [of "Some cfg"] len
    unfolding q generateLinkMap_def toAffiliateLinks_def map_values_def assignInv_def
    by (simp add: comp_def)
qed

theorem slug_assignment_unique_witness:
  "distinct (map fst (generateLinkMap demoPlatform demoConfig amazonPlugins (\<lambda>i. 1000) [productLink, plainLink 1 1, shortLink, plainLink 7 1])) \<and>
   map (\<lambda>e. slug (snd e)) (generateLinkMap demoPlatform demoConfig amazonPlugins (\<lambda>i. 1000) [productLink, plainLink 1 1, shortLink, plainLink 7 1])
     = [''best-blender'', ''best-blender-shop'', ''amazon-product-rs'']"
proof -
  have "map (\<lambda>e. slug (snd e)) (generateLinkMap demoPlatform demoConfig amazonPlugins (\<lambda>i. 1000) [productLink, plainLink 1 1, shortLink, plainLink 7 1])
     = [''best-blender'', ''best-blender-shop'', ''amazon-product-rs'']"
    by code_simp
  with slug_assignment_unique [of demoPlatform demoConfig amazonPlugins "\<lambda>i. 1000" "[productLink, plainLink 1 1, shortLink, plainLink 7 1]"]
  show ?thesis by blast
qed

lemma finalUrl_converter:
  "finalUrl (Some cfg) pm link =
     (case converter_convert cfg pm link of None \<Rightarrow> url link | Some r \<Rightarrow> cr_converted r)"
  by (simp add: finalUrl_def converter_convert_def split: option.splits)

lemma finalUrl_cong:
  "url l' = url l \<Longrightarrow> network l' = network l \<Longrightarrow> finalUrl config pm l' = finalUrl config pm l"
  by (auto simp: finalUrl_def split: option.splits)






lemma assignStep_clock:
  "generateSlug pf pm t link = generateSlug pf pm t' link \<Longrightarrow>
   assignStep pf config pm t st link = assignStep pf config pm t' st link"
  by (simp add: assignStep_def)

lemma assignLoop_clock:
  "\<forall>l \<in> set links. \<forall>t t'. generateSlug pf pm t l = generateSlug pf pm t' l \<Longrightarrow>
   assignLoop pf config pm clock i links st = assignLoop pf config pm clock' j links st"
proof (induction links arbitrary: i j st)
  case Nil
  show ?case by simp
next
  case (Cons x links)
  then have "assignStep pf config pm (clock i) st x = assignStep pf config pm (clock' j) st x"
    by (intro assignStep_clock) simp
  with Cons show ?case by simp
qed

lemma plainLink_slug:
  "findOrGenerateSlug demoPlatform amazonPlugins now (plainLink a b) [] = ''best-blender''"
  by (simp add: findOrGenerateSlug_def generateSlug_def pluginFor_def plainLink_def truthy_def
      demoPlatform_def demoSlugify_def toLowerCase_def toLowerChar_def isAlnum_def
      stripTrailingDashes_def)

lemma productLink_slug_clock_free:
  "generateSlug demoPlatform amazonPlugins t productLink = ''best-blender''"
proof -
  have "map_of amazonPlugins ''amazon'' = Some (createAmazonPlugin demoPlatform)"
    by (simp add: amazonPlugins_def pluginMap_def new_Map_def map_set_def createAmazonPlugin_def)
  then show ?thesis
    by (simp add: generateSlug_def pluginFor_def productLink_def truthy_def createAmazonPlugin_def
        amazon_generateSlug_def sampleAmazonUrl_def
        demoPlatform_def demoSlugify_def toLowerCase_def toLowerChar_def isAlnum_def
        stripTrailingDashes_def)
qed

lemma plainLink_slug_clock_free:
  "generateSlug demoPlatform amazonPlugins t (plainLink a b) = ''best-blender''"
  using plainLink_slug [of t a b] by (simp add: findOrGenerateSlug_def)

text \<open>
  Claim C3, as stated, fails: the slug generators fall back to a token made of the
  clock reading, so two runs on the same list give different slugs when an occurrence
  reaches the fallback. The occurrence below is a short Amazon link whose text is its
  URL: the plugin finds no product identifier in it and uses the clock.
\<close>

theorem clock_fallback_counterexample:
  "map (\<lambda>e. slug (snd e)) (generateLinkMap demoPlatform demoConfig amazonPlugins (\<lambda>i. 1000) [shortLink])
     = [''amazon-product-rs''] \<and>
   map (\<lambda>e. slug (snd e)) (generateLinkMap demoPlatform demoConfig amazonPlugins (\<lambda>i. 2000) [shortLink])
     = [''amazon-product-1jk'']"
  by code_simp

text \<open>
  Claim C3, amended. When the slug generated for every occurrence of the list does not
  depend on the clock reading (no occurrence reaches the clock fallback), two runs of
  the slug assignment on the same list in the same order give the same map, whatever
  the clock reads in each run: every URL gets the same slug in both.
\<close>

theorem slug_assignment_deterministic:
  assumes "\<forall>l \<in> set links. \<forall>t t'. generateSlug pf pm t l = generateSlug pf pm t' l"
  shows "generateLinkMap pf cfg pm clock links = generateLinkMap pf cfg pm clock' links"
  unfolding generateLinkMap_def
  using assignLoop_clock [OF assms, where config = "Some cfg" and clock = clock and i = 0
      and clock' = clock' and j = 0]
  by simp

theorem slug_assignment_deterministic_witness:
  "generateLinkMap demoPlatform demoConfig amazonPlugins (\<lambda>i. 1000) [productLink, plainLink 1 1]
     = generateLinkMap demoPlatform demoConfig amazonPlugins (\<lambda>i. 2000) [productLink, plainLink 1 1]"
proof -
  have "\<forall>l \<in> set [productLink, plainLink 1 1]. \<forall>t t'.
      generateSlug demoPlatform amazonPlugins t l = generateSlug demoPlatform amazonPlugins t' l"
    by (simp add: productLink_slug_clock_free plainLink_slug_clock_free)
  then show ?thesis by (rule slug_assignment_deterministic)
qed

section \<open>Properties of the Amazon plugin\<close>

lemma sample_extractProductId: "extractProductId sampleAmazonUrl = Some ''B000A6PPOK''"
  by code_simp

lemma extractDomain_www_amazon_com:
  "parseURL pf u = Some parsed \<Longrightarrow> hostname parsed = ''www.amazon.com'' \<Longrightarrow> extractDomain pf u = ''amazon.com''"
  by (simp add: extractDomain_def toLowerCase_def toLowerChar_def AMAZON_DOMAINS_def isDomainOf_def Let_def)

text \<open>
  Claim C8. For the URL of the example (\<open>sampleAmazonUrl\<close>, an Amazon product page
  with a \<^verbatim>\<open>ref\<close> segment and tracking parameters) and options that carry the tag
  \<^verbatim>\<open>donkitchencom-20\<close>, as the assignment passes them when the network is enabled,
  \<^verbatim>\<open>convert\<close> returns exactly \<^verbatim>\<open>https://www.amazon.com/dp/B000A6PPOK?tag=donkitchencom-20\<close>.
  The URL parser is a parameter; the one fact used of it is that it reads the host
  \<^verbatim>\<open>www.amazon.com\<close> from this URL.
\<close>

theorem amazon_convert_example:
  assumes "parseURL pf sampleAmazonUrl = Some parsed" and "hostname parsed = ''www.amazon.com''"
    and "o_tag options = Some ''donkitchencom-20''"
  shows "amazon_convert pf sampleAmazonUrl options
           = ''https://www.amazon.com/dp/B000A6PPOK?tag=donkitchencom-20''"
  using extractDomain_www_amazon_com [OF assms(1,2)] assms(3)
  by (simp add: amazon_convert_def sample_extractProductId truthy_def)

theorem amazon_convert_example_witness:
  "amazon_convert demoPlatform sampleAmazonUrl \<lparr>o_tag = Some ''donkitchencom-20'', o_cleanParams = Some True\<rparr>
           = ''https://www.amazon.com/dp/B000A6PPOK?tag=donkitchencom-20''"
  by (rule amazon_convert_example [OF demo_parse_sample]) simp_all

section \<open>Properties of the content rewrite\<close>

lemma regexLiteral_escape:
  "regexLiteral (escapeRegex s @ [CHR 0x5C, c]) = s @ [c]"
proof (induction s)
  case Nil
  show ?case by (simp add: escapeRegex_def)
next
  case (Cons a s)
  then have ih: "regexLiteral (escapeRegex s @ [CHR 0x5C, c]) = s @ [c]" .
  have e: "escapeRegex (a # s) = (if regexSpecial a then [CHR 0x5C, a] else [a]) @ escapeRegex s"
    by (simp add: escapeRegex_def)
  show ?case
  proof (cases "regexSpecial a")
    case True
    then show ?thesis using ih by (simp add: e)
  next
    case False
    then have nb: "a \<noteq> CHR 0x5C" by (auto simp: regexSpecial_def)
    obtain x xs where x: "escapeRegex s @ [CHR 0x5C, c] = x # xs"
      by (cases "escapeRegex s @ [CHR 0x5C, c]") auto
    show ?thesis using False nb ih by (simp add: e x)
  qed
qed

lemma urlPattern_literal: "urlPattern u = '']('' @ u @ '')''"
  using regexLiteral_escape [of u "CHR '')''"]
  by (simp add: urlPattern_def)


lemma str_includes_Nil_pat: "str_includes s [] "
  by (cases s) simp_all

lemma replaceAllFrom_no_match:
  "pat \<noteq> [] \<Longrightarrow> \<not> str_includes s pat \<Longrightarrow> replaceAllFrom pat tmpl pre s = s"
  by (induction pat tmpl pre s rule: replaceAllFrom.induct) auto








lemma transformStep_cases:
  "transformStep pf config pm lm now (c, chs) link =
     (if \<not> qualifies link then (c, chs)
      else (replaceAll ('']('' @ url link @ '')'')
              ('']('' @ (trackingBaseUrl config @ findOrGenerateSlug pf pm now link lm) @ '')'') c,
            if replaceAll ('']('' @ url link @ '')'')
              ('']('' @ (trackingBaseUrl config @ findOrGenerateSlug pf pm now link lm) @ '')'') c \<noteq> c
            then chs @ [changeFor pf config pm lm now link] else chs))"
  by (simp add: transformStep_def qualifies_def urlPattern_literal changeFor_def Let_def)

lemma transformStep_fst:
  "fst (transformStep pf config pm lm now (c, chs) link) = fst (transformStep pf config pm lm now (c, []) link)"
  by (simp add: transformStep_cases)

lemma transformStep_snd:
  "snd (transformStep pf config pm lm now (c, chs) link) =
     (if fst (transformStep pf config pm lm now (c, chs) link) \<noteq> c
      then chs @ [changeFor pf config pm lm now link] else chs)"
  by (simp add: transformStep_cases)

lemma transformStep_no_match:
  "\<not> str_includes c ('']('' @ url link @ '')'') \<Longrightarrow>
   transformStep pf config pm lm now (c, chs) link = (c, chs)"
  by (simp add: transformStep_cases replaceAll_def replaceAllFrom_no_match)

lemma altered_iff: "altered (l, n, b, a) = (a \<noteq> b)"
  by (simp add: altered_def)

lemma transformLoop_changes:
  "snd (transformLoop pf config pm lm clock i links (c, chs)) =
     chs @ map (\<lambda>step. changeFor pf config pm lm (fst (snd step)) (fst step))
              (filter altered (rewriteTrace pf config pm lm clock i links c))"
proof (induction links arbitrary: i c chs)
  case Nil
  show ?case by simp
next
  case (Cons l links)
  let ?c' = "fst (transformStep pf config pm lm (clock i) (c, []) l)"
  let ?chs' = "if ?c' \<noteq> c then chs @ [changeFor pf config pm lm (clock i) l] else chs"
  have step: "transformStep pf config pm lm (clock i) (c, chs) l = (?c', ?chs')"
    using transformStep_fst [of pf config pm lm "clock i" c chs l]
      transformStep_snd [of pf config pm lm "clock i" c chs l]
    by (simp add: prod_eq_iff)
  have "snd (transformLoop pf config pm lm clock i (l # links) (c, chs)) =
        snd (transformLoop pf config pm lm clock (Suc i) links (?c', ?chs'))"
    by (simp only: transformLoop.simps step)
  also have "\<dots> = ?chs' @ map (\<lambda>step. changeFor pf config pm lm (fst (snd step)) (fst step))
              (filter altered (rewriteTrace pf config pm lm clock (Suc i) links ?c'))"
    by (rule Cons.IH)
  also have "\<dots> = chs @ map (\<lambda>step. changeFor pf config pm lm (fst (snd step)) (fst step))
              (filter altered (rewriteTrace pf config pm lm clock i (l # links) c))"
    by (simp add: altered_iff Let_def)
  finally show ?case .
qed






lemma htmlDoc_no_match: "\<not> str_includes htmlDoc ('']('' @ url (plainLink 1 1) @ '')'')"
  by code_simp

text \<open>
  Claim C7. A step of the rewrite loop appends the change entry of its occurrence
  (original URL, slug, tracking URL) exactly when the substitution altered the content.
  When the content holds no \<^verbatim>\<open>](url)\<close> for the occurrence, the step leaves the content
  and the changes as they were; the model has no error outcome, as the source has no
  \<^verbatim>\<open>throw\<close> on this path. For the whole file, the changes are the entries of the
  occurrences whose step altered the content, in the order of processing, and the
  reported count is the length of the changes.
\<close>

theorem change_recorded_iff_altered:
  "snd (transformStep pf cfg pm lm now (c, chs) link) =
      (if fst (transformStep pf cfg pm lm now (c, chs) link) \<noteq> c
       then chs @ [\<lparr>original = url link, c_slug = findOrGenerateSlug pf pm now link lm,
                    trackingUrl = trackingBaseUrl cfg @ findOrGenerateSlug pf pm now link lm\<rparr>]
       else chs) \<and>
   (\<not> str_includes c ('']('' @ url link @ '')'') \<longrightarrow>
      transformStep pf cfg pm lm now (c, chs) link = (c, chs)) \<and>
   changes (transformFile pf cfg pm clock path content links lm) =
      map (\<lambda>step. changeFor pf cfg pm lm (fst (snd step)) (fst step))
          (filter altered (rewriteTrace pf cfg pm lm clock 0 (sortLinks links) content)) \<and>
   linksTransformed (transformFile pf cfg pm clock path content links lm) =
      length (changes (transformFile pf cfg pm clock path content links lm))"
proof (intro conjI impI)
  show "snd (transformStep pf cfg pm lm now (c, chs) link) =
      (if fst (transformStep pf cfg pm lm now (c, chs) link) \<noteq> c
       then chs @ [\<lparr>original = url link, c_slug = findOrGenerateSlug pf pm now link lm,
                    trackingUrl = trackingBaseUrl cfg @ findOrGenerateSlug pf pm now link lm\<rparr>]
       else chs)"
    using transformStep_snd [of pf cfg pm lm now c chs link] by (simp add: changeFor_def)
next
  assume "\<not> str_includes c ('']('' @ url link @ '')'')"
  then show "transformStep pf cfg pm lm now (c, chs) link = (c, chs)"
    by (rule transformStep_no_match)
next
  show "changes (transformFile pf cfg pm clock path content links lm) =
      map (\<lambda>step. changeFor pf cfg pm lm (fst (snd step)) (fst step))
          (filter altered (rewriteTrace pf cfg pm lm clock 0 (sortLinks links) content))"
    using transformLoop_changes [of pf cfg pm lm clock 0 "sortLinks links" content "[]"]
    by (simp add: transformFile_def Let_def)
next
  show "linksTransformed (transformFile pf cfg pm clock path content links lm) =
      length (changes (transformFile pf cfg pm clock path content links lm))"
    by (simp add: transformFile_def Let_def)
qed

theorem change_recorded_iff_altered_witness:
  "\<not> str_includes htmlDoc ('']('' @ url (plainLink 1 1) @ '')'') \<and>
   transformStep demoPlatform demoConfig amazonPlugins [] 0 (htmlDoc, []) (plainLink 1 1) = (htmlDoc, []) \<and>
   changes (transformFile demoPlatform demoConfig amazonPlugins (\<lambda>i. 0) ''post.md'' htmlDoc [plainLink 1 1] []) = [] \<and>
   linksTransformed (transformFile demoPlatform demoConfig amazonPlugins (\<lambda>i. 0) ''post.md'' htmlDoc [plainLink 1 1] []) = 0"
proof -
  have step: "transformStep demoPlatform demoConfig amazonPlugins [] 0 (htmlDoc, []) (plainLink 1 1) = (htmlDoc, [])"
    using change_recorded_iff_altered [of demoPlatform demoConfig amazonPlugins "[]" 0 htmlDoc "[]" "plainLink 1 1"]
      htmlDoc_no_match by blast
  have "sortLinks [plainLink 1 1] = [plainLink 1 1]"
    by (simp add: sortLinks_def)
  then have ch: "changes (transformFile demoPlatform demoConfig amazonPlugins (\<lambda>i. 0) ''post.md'' htmlDoc [plainLink 1 1] []) = []"
    using step by (simp add: transformFile_def Let_def)
  then have "linksTransformed (transformFile demoPlatform demoConfig amazonPlugins (\<lambda>i. 0) ''post.md'' htmlDoc [plainLink 1 1] []) = 0"
    by (simp add: transformFile_def Let_def)
  with step ch htmlDoc_no_match show ?thesis by simp
qed




text \<open>
  Claim C5. The loop skips an occurrence by the test \<^verbatim>\<open>startsWith('http')\<close>, not by
  the scheme: a relative link whose path starts with these four letters is not skipped.
  For the document and the relative link \<^verbatim>\<open>httpd.html\<close> below, which has no external
  URL, the rewrite records a change and replaces the relative link.
\<close>

theorem relative_http_link_rewritten:
  "\<not> prefix ''http://'' (url relativeLink) \<and> \<not> prefix ''https://'' (url relativeLink) \<and>
   transformFile demoPlatform demoConfig amazonPlugins (\<lambda>i. 0) ''post.md'' relativeDoc [relativeLink] [] =
   \<lparr>r_file = ''post.md'', originalContent = relativeDoc,
    transformedContent = ''See the [Apache guide](/link/apache-guide).'',
    linksTransformed = 1,
    changes = [\<lparr>original = ''httpd.html'', c_slug = ''apache-guide'',
                trackingUrl = ''/link/apache-guide''\<rparr>]\<rparr>"
  by code_simp

end
